theory Spec2Isabelle
  imports Complex_Main
begin

section \<open>Photo appendix builder: size estimation and compression tuning\<close>

text \<open>
  The development follows \<^verbatim>\<open>main.py\<close>, \<^verbatim>\<open>extract_photo_nrs.py\<close> and
  \<^verbatim>\<open>move_photos.py\<close>. Python integers are unbounded, so they are \<^typ>\<open>int\<close>.
\<close>

subsection \<open>Constants and configuration (main.py, lines 39-56)\<close>

definition TARGET_DOCX_SIZE_BYTES :: int where
  "TARGET_DOCX_SIZE_BYTES = 20 * 1024 * 1024"

definition DOCX_OVERHEAD_BYTES :: int where
  "DOCX_OVERHEAD_BYTES = 1500000"

definition QUALITY_MIN :: int where "QUALITY_MIN = 30"
definition QUALITY_MAX :: int where "QUALITY_MAX = 90"
definition MAX_DIM_MIN :: int where "MAX_DIM_MIN = 800"
definition MAX_DIM_MAX :: int where "MAX_DIM_MAX = 2400"

definition QUALITY_STEP :: int where "QUALITY_STEP = 5"
definition MAX_DIM_STEP :: int where "MAX_DIM_STEP = 200"

definition ESTIMATE_SAMPLE_MAX :: int where "ESTIMATE_SAMPLE_MAX = 6"

lemmas config_defs =
  TARGET_DOCX_SIZE_BYTES_def DOCX_OVERHEAD_BYTES_def QUALITY_MIN_def QUALITY_MAX_def
  MAX_DIM_MIN_def MAX_DIM_MAX_def QUALITY_STEP_def MAX_DIM_STEP_def ESTIMATE_SAMPLE_MAX_def

lemmas bound_defs =
  QUALITY_MIN_def QUALITY_MAX_def MAX_DIM_MIN_def MAX_DIM_MAX_def QUALITY_STEP_def
  MAX_DIM_STEP_def

subsection \<open>Strings, exceptions and image files\<close>

text \<open>
  A Python \<^verbatim>\<open>str\<close> is a sequence of Unicode code points; a code point is a natural
  number and \<open>py\<close> turns an ASCII literal into such a sequence.
\<close>

type_synonym codepoint = nat
type_synonym pystr = "codepoint list"

definition py :: "string \<Rightarrow> pystr" where
  "py s = map of_char s"

text \<open>
  The exceptions that the modelled code can raise. A function that can raise returns
  \<open>Inl\<close> of the exception, and \<open>Inr\<close> of its result otherwise.
\<close>

datatype error = OSError | ValueError | TypeError

text \<open>
  An image file as the orchestrator lists it in the source folder: the \<^verbatim>\<open>Path\<close>
  (stem and suffix of its name) together with what \<^verbatim>\<open>p.stat()\<close> does for it during
  the run: \<open>st_size p = Some n\<close> when it reports \<open>n\<close> bytes, and \<open>st_size p = None\<close>
  when it raises \<^verbatim>\<open>OSError\<close> (the file is gone, or cannot be read).
\<close>

record image =
  stem :: pystr
  suffix :: pystr
  st_size :: "nat option"

text \<open>
  \<^verbatim>\<open>compress_image_to_jpeg_bytes\<close> opens, rotates, shrinks and encodes a file through
  the imaging library. The estimator only uses the length of the bytes it returns and
  whether it raised, so the codec is a parameter: \<open>enc p quality max_dim\<close> is
  \<open>Some n\<close> for \<open>n\<close> bytes and \<open>None\<close> when an \<^verbatim>\<open>Exception\<close> is raised.
\<close>

type_synonym encoder = "image \<Rightarrow> int \<Rightarrow> int \<Rightarrow> nat option"

subsection \<open>Size estimator (main.py, \<^verbatim>\<open>estimate_docx_size_bytes\<close>)\<close>

text \<open>\<^verbatim>\<open>xs[:k]\<close>: a negative bound counts from the end of the list.\<close>

definition slice_to :: "int \<Rightarrow> 'a list \<Rightarrow> 'a list" where
  "slice_to k xs =
     (if 0 \<le> k then take (nat k) xs else take (length xs - nat (- k)) xs)"

text \<open>
  \<^verbatim>\<open>sorted(image_paths, key=lambda p: p.stat().st_size, reverse=True)\<close>. The keys are
  computed first, file by file in the order of the list; the call stands outside the
  \<^verbatim>\<open>try\<close> of the estimator, so the first \<^verbatim>\<open>stat\<close> that raises ends the estimate
  with \<^verbatim>\<open>OSError\<close>. Then the files are sorted, largest first; the sort is stable also
  with \<^verbatim>\<open>reverse=True\<close>, so files of equal size keep their order.
\<close>

fun stat_keys :: "image list \<Rightarrow> error + (nat \<times> image) list" where
  "stat_keys [] = Inr []"
| "stat_keys (p # ps) =
     (case st_size p of
        None \<Rightarrow> Inl OSError
      | Some n \<Rightarrow> (case stat_keys ps of Inl e \<Rightarrow> Inl e | Inr ks \<Rightarrow> Inr ((n, p) # ks)))"

definition sorted_by_size :: "image list \<Rightarrow> error + image list" where
  "sorted_by_size image_paths =
     (case stat_keys image_paths of
        Inl e \<Rightarrow> Inl e
      | Inr ks \<Rightarrow> Inr (map snd (sort_key (\<lambda>(n, p). - int n) ks)))"

text \<open>\<^verbatim>\<open>sorted_by_size[:min(sample_max, len(sorted_by_size))]\<close>\<close>

definition sample :: "image list \<Rightarrow> int \<Rightarrow> error + image list" where
  "sample image_paths sample_max =
     (case sorted_by_size image_paths of
        Inl e \<Rightarrow> Inl e
      | Inr by_size \<Rightarrow> Inr (slice_to (min sample_max (int (length by_size))) by_size))"

text \<open>
  The loop over the sample: a file whose compression raises is skipped
  (\<^verbatim>\<open>except Exception: continue\<close>), the length of every other result is appended.
\<close>

fun compressed_sizes :: "encoder \<Rightarrow> image list \<Rightarrow> int \<Rightarrow> int \<Rightarrow> nat list" where
  "compressed_sizes enc [] quality max_dim = []"
| "compressed_sizes enc (p # ps) quality max_dim =
     (case enc p quality max_dim of
        Some n \<Rightarrow> n # compressed_sizes enc ps quality max_dim
      | None \<Rightarrow> compressed_sizes enc ps quality max_dim)"

text \<open>\<^verbatim>\<open>int(x)\<close> of a float: truncation towards zero.\<close>

definition py_int :: "rat \<Rightarrow> int" where
  "py_int x = (if 0 \<le> x then \<lfloor>x\<rfloor> else \<lceil>x\<rceil>)"

text \<open>
  The last two lines of the estimator run in double precision:
  \<^verbatim>\<open>avg_size = sum(compressed_sizes) / float(len(compressed_sizes))\<close> and
  \<^verbatim>\<open>int(overhead_bytes + avg_size * len(image_paths))\<close>. Every finite double is a
  rational number, and each conversion and operation returns the exact result rounded to
  a double. The rounding is the parameter \<open>rnd\<close>; with \<open>rnd = (\<lambda>x. x)\<close> the
  arithmetic is exact. Overflow to infinity is outside the model.
\<close>

definition extrapolate :: "(rat \<Rightarrow> rat) \<Rightarrow> int \<Rightarrow> nat list \<Rightarrow> nat \<Rightarrow> int" where
  "extrapolate rnd overhead_bytes sizes n =
     (let avg_size = rnd (rnd (of_nat (sum_list sizes)) / rnd (of_nat (length sizes)))
      in py_int (rnd (rnd (of_int overhead_bytes) + rnd (avg_size * rnd (of_nat n)))))"

text \<open>
  One run of the estimator: the value it returns or the exception it raises, and the
  files it handed to the codec, in order. With an empty \<open>image_paths\<close> it returns
  before any file is looked at; when \<^verbatim>\<open>stat\<close> raises, no file has reached the codec.
\<close>

definition estimate_run ::
  "(rat \<Rightarrow> rat) \<Rightarrow> encoder \<Rightarrow> image list \<Rightarrow> int \<Rightarrow> int \<Rightarrow> int \<Rightarrow> int
     \<Rightarrow> (error + int) \<times> image list" where
  "estimate_run rnd enc image_paths quality max_dim overhead_bytes sample_max =
     (if image_paths = [] then (Inr overhead_bytes, [])
      else
        case sample image_paths sample_max of
          Inl e \<Rightarrow> (Inl e, [])
        | Inr smp \<Rightarrow>
            let sizes = compressed_sizes enc smp quality max_dim
            in if sizes = [] then (Inr (overhead_bytes + 10000000), smp)
               else (Inr (extrapolate rnd overhead_bytes sizes (length image_paths)), smp))"

definition estimate_docx_size_bytes ::
  "(rat \<Rightarrow> rat) \<Rightarrow> encoder \<Rightarrow> image list \<Rightarrow> int \<Rightarrow> int \<Rightarrow> int \<Rightarrow> int \<Rightarrow> error + int" where
  "estimate_docx_size_bytes rnd enc image_paths quality max_dim overhead_bytes sample_max =
     fst (estimate_run rnd enc image_paths quality max_dim overhead_bytes sample_max)"

definition encoder_calls ::
  "(rat \<Rightarrow> rat) \<Rightarrow> encoder \<Rightarrow> image list \<Rightarrow> int \<Rightarrow> int \<Rightarrow> int \<Rightarrow> int \<Rightarrow> image list" where
  "encoder_calls rnd enc image_paths quality max_dim overhead_bytes sample_max =
     snd (estimate_run rnd enc image_paths quality max_dim overhead_bytes sample_max)"

subsection \<open>Auto-tuner (main.py, \<^verbatim>\<open>auto_tune_compression\<close>)\<close>

text \<open>
  The \<^verbatim>\<open>while True\<close> loop. Its state is \<open>quality\<close> and \<open>max_dim\<close>; \<open>calls\<close>
  counts the estimator calls made so far and is returned beside the loop's result. The
  estimator is called once per iteration, with the current setting; an exception of the
  estimator is not caught and ends the loop.
\<close>

function tune_loop ::
  "(int \<Rightarrow> int \<Rightarrow> error + int) \<Rightarrow> int \<Rightarrow> int \<Rightarrow> int \<Rightarrow> nat
     \<Rightarrow> (error + int \<times> int \<times> int) \<times> nat" where
  "tune_loop est target_bytes quality max_dim calls =
     (case est quality max_dim of
        Inl e \<Rightarrow> (Inl e, Suc calls)
      | Inr v \<Rightarrow>
          if v \<le> target_bytes
            then (Inr (quality, max_dim, v), Suc calls)
          else if QUALITY_MIN \<le> quality - QUALITY_STEP
            then tune_loop est target_bytes (quality - QUALITY_STEP) max_dim (Suc calls)
          else if MAX_DIM_MIN \<le> max_dim - MAX_DIM_STEP
            then tune_loop est target_bytes quality (max_dim - MAX_DIM_STEP) (Suc calls)
          else (Inr (quality, max_dim, v), Suc calls))"
  by pat_completeness auto
termination
  by (relation "measure (\<lambda>(est, target_bytes, quality, max_dim, calls).
        nat (quality - QUALITY_MIN) + nat (max_dim - MAX_DIM_MIN))")
     (auto simp: config_defs)

declare tune_loop.simps [simp del]

definition auto_tune_run ::
  "(rat \<Rightarrow> rat) \<Rightarrow> encoder \<Rightarrow> image list \<Rightarrow> int \<Rightarrow> int \<Rightarrow> int
     \<Rightarrow> (error + int \<times> int \<times> int) \<times> nat" where
  "auto_tune_run rnd enc image_paths target_bytes start_quality start_max_dim =
     tune_loop
       (\<lambda>quality max_dim. estimate_docx_size_bytes rnd enc image_paths quality max_dim
          DOCX_OVERHEAD_BYTES ESTIMATE_SAMPLE_MAX)
       target_bytes
       (max QUALITY_MIN (min QUALITY_MAX start_quality))
       (max MAX_DIM_MIN (min MAX_DIM_MAX start_max_dim))
       0"

definition auto_tune_compression ::
  "(rat \<Rightarrow> rat) \<Rightarrow> encoder \<Rightarrow> image list \<Rightarrow> int \<Rightarrow> int \<Rightarrow> int \<Rightarrow> error + int \<times> int \<times> int" where
  "auto_tune_compression rnd enc image_paths target_bytes start_quality start_max_dim =
     fst (auto_tune_run rnd enc image_paths target_bytes start_quality start_max_dim)"

definition estimator_calls ::
  "(rat \<Rightarrow> rat) \<Rightarrow> encoder \<Rightarrow> image list \<Rightarrow> int \<Rightarrow> int \<Rightarrow> int \<Rightarrow> nat" where
  "estimator_calls rnd enc image_paths target_bytes start_quality start_max_dim =
     snd (auto_tune_run rnd enc image_paths target_bytes start_quality start_max_dim)"

subsection \<open>Python string operations\<close>

text \<open>
  The character classes of this section are those of Python's Unicode database for the
  code points below 256 (ASCII and Latin-1). Other code points are outside these tables:
  the definitions give them no class, and every statement below that depends on one of
  these tables is about strings within the tabulated range.
\<close>

text \<open>\<^verbatim>\<open>c.isspace()\<close>, as \<^verbatim>\<open>str.strip()\<close> uses it.\<close>

definition py_isspace :: "codepoint \<Rightarrow> bool" where
  "py_isspace c \<longleftrightarrow> (9 \<le> c \<and> c \<le> 13) \<or> (28 \<le> c \<and> c \<le> 32) \<or> c = 133 \<or> c = 160"

text \<open>The pattern \<^verbatim>\<open>\d\<close>: a decimal digit.\<close>

definition re_digit :: "codepoint \<Rightarrow> bool" where
  "re_digit c \<longleftrightarrow> 48 \<le> c \<and> c \<le> 57"

text \<open>\<^verbatim>\<open>c.isdigit()\<close>: the decimal digits and the superscripts two, three and one.\<close>

definition py_isdigit_char :: "codepoint \<Rightarrow> bool" where
  "py_isdigit_char c \<longleftrightarrow> (48 \<le> c \<and> c \<le> 57) \<or> c = 178 \<or> c = 179 \<or> c = 185"

text \<open>\<^verbatim>\<open>s.strip()\<close>: white space is removed at both ends.\<close>

definition py_strip :: "pystr \<Rightarrow> pystr" where
  "py_strip s = rev (dropWhile py_isspace (rev (dropWhile py_isspace s)))"

text \<open>
  \<^verbatim>\<open>s.split(sep)\<close> for a separator of one character: the pieces between the
  separators, empty pieces included; the result is never empty.
\<close>

fun py_split :: "codepoint \<Rightarrow> pystr \<Rightarrow> pystr list" where
  "py_split sep [] = [[]]"
| "py_split sep (c # cs) =
     (if c = sep then [] # py_split sep cs
      else (case py_split sep cs of
              t # ts \<Rightarrow> (c # t) # ts
            | [] \<Rightarrow> [[c]]))"

text \<open>
  \<^verbatim>\<open>s.zfill(width)\<close>: zeros (code point 48) are put in front until the length is
  \<open>width\<close>, after a leading sign (\<^verbatim>\<open>+\<close> is 43, \<^verbatim>\<open>-\<close> is 45) if there is one.
\<close>

definition zfill :: "nat \<Rightarrow> pystr \<Rightarrow> pystr" where
  "zfill width s =
     (if width \<le> length s then s
      else (case s of
              c # rest \<Rightarrow>
                if c = 43 \<or> c = 45 then c # replicate (width - length s) 48 @ rest
                else replicate (width - length s) 48 @ s
            | [] \<Rightarrow> replicate width 48))"

subsection \<open>Natural sort (main.py, \<^verbatim>\<open>natural_sort_key_string\<close>)\<close>

text \<open>
  \<^verbatim>\<open>re.split(r"(\d+)", s)\<close>: the text before the first run of digits, the run, and
  the split of what follows it. The pieces outside the runs are kept also when they are
  empty, so a string that ends in a digit gives a last piece \<^verbatim>\<open>''\<close>.
\<close>

function re_split_digits :: "pystr \<Rightarrow> pystr list" where
  "re_split_digits s =
     (if dropWhile (\<lambda>c. \<not> re_digit c) s = [] then [s]
      else takeWhile (\<lambda>c. \<not> re_digit c) s
           # takeWhile re_digit (dropWhile (\<lambda>c. \<not> re_digit c) s)
           # re_split_digits (dropWhile re_digit (dropWhile (\<lambda>c. \<not> re_digit c) s)))"
  by pat_completeness auto
termination
proof (relation "measure length")
  fix s :: pystr
  assume ne: "dropWhile (\<lambda>c. \<not> re_digit c) s \<noteq> []"
  then have "re_digit (hd (dropWhile (\<lambda>c. \<not> re_digit c) s))"
    using hd_dropWhile [of "\<lambda>c. \<not> re_digit c" s] by simp
  with ne have "length (dropWhile re_digit (dropWhile (\<lambda>c. \<not> re_digit c) s))
      < length (dropWhile (\<lambda>c. \<not> re_digit c) s)"
    by (cases "dropWhile (\<lambda>c. \<not> re_digit c) s")
       (auto intro: le_imp_less_Suc length_dropWhile_le)
  also have "\<dots> \<le> length s" by (rule length_dropWhile_le)
  finally show "(dropWhile re_digit (dropWhile (\<lambda>c. \<not> re_digit c) s), s) \<in> measure length"
    by simp
qed simp

declare re_split_digits.simps [simp del]

text \<open>The elements of a sort key.\<close>

datatype token = Str pystr | Num int

text \<open>\<^verbatim>\<open>p.isdigit()\<close>: not empty, and every character is a digit.\<close>

definition py_str_isdigit :: "pystr \<Rightarrow> bool" where
  "py_str_isdigit p \<longleftrightarrow> p \<noteq> [] \<and> list_all py_isdigit_char p"

text \<open>
  \<^verbatim>\<open>int(p)\<close> for a piece that passed \<^verbatim>\<open>isdigit\<close>: the value of a run of decimal
  digits; a superscript digit raises \<^verbatim>\<open>ValueError\<close>.
\<close>

definition int_of_str :: "pystr \<Rightarrow> error + int" where
  "int_of_str p =
     (if p \<noteq> [] \<and> list_all re_digit p
      then Inr (fold (\<lambda>c n. 10 * n + (int c - 48)) p 0)
      else Inl ValueError)"

text \<open>\<^verbatim>\<open>[int(p) if p.isdigit() else p for p in parts]\<close>, from left to right.\<close>

fun key_tokens :: "pystr list \<Rightarrow> error + token list" where
  "key_tokens [] = Inr []"
| "key_tokens (p # ps) =
     (case (if py_str_isdigit p then map_sum id Num (int_of_str p) else Inr (Str p)) of
        Inl e \<Rightarrow> Inl e
      | Inr t \<Rightarrow> (case key_tokens ps of Inl e \<Rightarrow> Inl e | Inr ts \<Rightarrow> Inr (t # ts)))"

definition natural_sort_key_string :: "pystr \<Rightarrow> error + token list" where
  "natural_sort_key_string v =
     (let cleaned = py_strip v;
          parts = re_split_digits cleaned
      in key_tokens parts)"

text \<open>
  Python's order on the keys. Strings compare by code points, a proper prefix first;
  integers by value; a string against an integer raises \<^verbatim>\<open>TypeError\<close>. Lists compare
  at the first position where they differ, a proper prefix first.
\<close>

fun str_lt :: "pystr \<Rightarrow> pystr \<Rightarrow> bool" where
  "str_lt [] [] = False"
| "str_lt [] (y # ys) = True"
| "str_lt (x # xs) [] = False"
| "str_lt (x # xs) (y # ys) = (x < y \<or> (x = y \<and> str_lt xs ys))"

fun token_lt :: "token \<Rightarrow> token \<Rightarrow> error + bool" where
  "token_lt (Str a) (Str b) = Inr (str_lt a b)"
| "token_lt (Num a) (Num b) = Inr (a < b)"
| "token_lt (Str a) (Num b) = Inl TypeError"
| "token_lt (Num a) (Str b) = Inl TypeError"

fun key_lt :: "token list \<Rightarrow> token list \<Rightarrow> error + bool" where
  "key_lt [] [] = Inr False"
| "key_lt [] (y # ys) = Inr True"
| "key_lt (x # xs) [] = Inr False"
| "key_lt (x # xs) (y # ys) = (if x = y then key_lt xs ys else token_lt x y)"

text \<open>
  \<^verbatim>\<open>sorted(xs, key=f)\<close>: the keys are computed first, for every element; then the
  elements are sorted by key, elements of equal key keeping their order. The sort is
  written as an insertion sort that uses \<^verbatim>\<open><\<close> only, as Python's does: an element
  goes in front of the first one whose key is greater.
\<close>

fun with_keys :: "('a \<Rightarrow> error + token list) \<Rightarrow> 'a list \<Rightarrow> error + (token list \<times> 'a) list" where
  "with_keys key [] = Inr []"
| "with_keys key (x # xs) =
     (case key x of
        Inl e \<Rightarrow> Inl e
      | Inr k \<Rightarrow> (case with_keys key xs of Inl e \<Rightarrow> Inl e | Inr ks \<Rightarrow> Inr ((k, x) # ks)))"

fun insert_keyed ::
  "token list \<times> 'a \<Rightarrow> (token list \<times> 'a) list \<Rightarrow> error + (token list \<times> 'a) list" where
  "insert_keyed kx [] = Inr [kx]"
| "insert_keyed kx (ky # rest) =
     (case key_lt (fst kx) (fst ky) of
        Inl e \<Rightarrow> Inl e
      | Inr True \<Rightarrow> Inr (kx # ky # rest)
      | Inr False \<Rightarrow>
          (case insert_keyed kx rest of Inl e \<Rightarrow> Inl e | Inr rest' \<Rightarrow> Inr (ky # rest')))"

fun sort_keyed ::
  "(token list \<times> 'a) list \<Rightarrow> (token list \<times> 'a) list \<Rightarrow> error + (token list \<times> 'a) list" where
  "sort_keyed [] acc = Inr acc"
| "sort_keyed (kx # rest) acc =
     (case insert_keyed kx acc of Inl e \<Rightarrow> Inl e | Inr acc' \<Rightarrow> sort_keyed rest acc')"

definition py_sorted :: "('a \<Rightarrow> error + token list) \<Rightarrow> 'a list \<Rightarrow> error + 'a list" where
  "py_sorted key xs =
     (case with_keys key xs of
        Inl e \<Rightarrow> Inl e
      | Inr ks \<Rightarrow> map_sum id (map snd) (sort_keyed ks []))"

subsection \<open>Selection by a required list (main.py, \<^verbatim>\<open>main_orchestrator\<close>, lines 467-480)\<close>

text \<open>
  \<^verbatim>\<open>{p.stem: p for p in all_images}\<close>: a later file replaces an earlier one of the
  same stem.
\<close>

definition image_by_stem :: "image list \<Rightarrow> (pystr \<rightharpoonup> image)" where
  "image_by_stem all_images = fold (\<lambda>p m. m(stem p \<mapsto> p)) all_images Map.empty"

text \<open>
  The loop over \<^verbatim>\<open>ordered_stems\<close>: a stem that is found appends its file to
  \<^verbatim>\<open>photos_for_report\<close>, a stem that is not found is appended to
  \<^verbatim>\<open>missing_stems\<close>, and the loop goes on to the next stem in both cases.
\<close>

fun match_stems ::
  "(pystr \<rightharpoonup> image) \<Rightarrow> pystr list \<Rightarrow> image list \<Rightarrow> pystr list \<Rightarrow> image list \<times> pystr list" where
  "match_stems by_stem [] photos_for_report missing_stems = (photos_for_report, missing_stems)"
| "match_stems by_stem (s # rest) photos_for_report missing_stems =
     (let stem_clean = py_strip s
      in case by_stem stem_clean of
           Some match \<Rightarrow> match_stems by_stem rest (photos_for_report @ [match]) missing_stems
         | None \<Rightarrow> match_stems by_stem rest photos_for_report (missing_stems @ [stem_clean]))"

text \<open>
  The selection with a required list: the order of the list, or its natural order when
  \<open>sort_numeric\<close> is chosen, then the loop. The result is \<^verbatim>\<open>photos_for_report\<close> and
  \<^verbatim>\<open>missing_stems\<close> as they stand after the loop. The orchestrator reaches these
  lines with a required list that is not empty; an exception of the sort key is the
  only way out of them without a result.
\<close>

definition main_orchestrator_selection ::
  "image list \<Rightarrow> pystr list \<Rightarrow> bool \<Rightarrow> error + (image list \<times> pystr list)" where
  "main_orchestrator_selection all_images required_photo_list sort_numeric =
     (case (if sort_numeric then py_sorted natural_sort_key_string required_photo_list
            else Inr required_photo_list) of
        Inl e \<Rightarrow> Inl e
      | Inr ordered_stems \<Rightarrow> Inr (match_stems (image_by_stem all_images) ordered_stems [] []))"

subsection \<open>Report-list normalization (extract_photo_nrs.py, lines 53-56)\<close>

text \<open>
  \<^verbatim>\<open>if len(cleaned_nr) > 3: cleaned_nr = cleaned_nr[:3] + '-' + cleaned_nr[3:]\<close>
\<close>

definition insert_hyphen :: "pystr \<Rightarrow> pystr" where
  "insert_hyphen cleaned_nr =
     (if 3 < length cleaned_nr then take 3 cleaned_nr @ py ''-'' @ drop 3 cleaned_nr
      else cleaned_nr)"

text \<open>
  What the loop appends for the token \<open>nr\<close>:
  \<^verbatim>\<open>''.join(c for c in nr if c.isalnum()).lower()\<close>, then the hyphen.
  \<^verbatim>\<open>str.isalnum\<close> and \<^verbatim>\<open>str.lower\<close> read the Unicode database of the Python that
  runs the script, which is not part of the repository, so both are parameters:
  \<open>isalnum c\<close> is \<^verbatim>\<open>c.isalnum()\<close> for the character \<open>c\<close>, and \<open>lower s\<close> is
  \<^verbatim>\<open>s.lower()\<close> for the string \<open>s\<close>.
\<close>

definition cleaned_nr :: "(codepoint \<Rightarrow> bool) \<Rightarrow> (pystr \<Rightarrow> pystr) \<Rightarrow> pystr \<Rightarrow> pystr" where
  "cleaned_nr isalnum lower nr = insert_hyphen (lower (filter isalnum nr))"

text \<open>
  Three facts of the database, each true of CPython's: the hyphen (code point 45) is not
  alphanumeric; lower-casing a string of alphanumeric characters that does not contain
  U+0130 (capital I with dot above, code point 304) gives alphanumeric characters only;
  and lower-casing a lower-cased string changes nothing.
\<close>

definition database_facts :: "(codepoint \<Rightarrow> bool) \<Rightarrow> (pystr \<Rightarrow> pystr) \<Rightarrow> bool" where
  "database_facts isalnum lower \<longleftrightarrow>
     \<not> isalnum 45
     \<and> (\<forall>s. 304 \<notin> set s \<and> list_all isalnum s \<longrightarrow> list_all isalnum (lower s))
     \<and> (\<forall>s. lower (lower s) = lower s)"

text \<open>
  An excerpt of the database for the concrete runs below: the rows of the code points
  below 256, of U+0130 and of U+0307 (combining dot above, code point 775). The lower
  case of U+0130 is two code points, \<^verbatim>\<open>i\<close> followed by U+0307. The excerpt has no
  row for any other code point and gives it no class and no case; no general statement
  below is about the excerpt.
\<close>

definition excerpt_isalnum :: "codepoint \<Rightarrow> bool" where
  "excerpt_isalnum c \<longleftrightarrow>
     (48 \<le> c \<and> c \<le> 57) \<or> (65 \<le> c \<and> c \<le> 90) \<or> (97 \<le> c \<and> c \<le> 122)
     \<or> c = 170 \<or> c = 178 \<or> c = 179 \<or> c = 181 \<or> c = 185 \<or> c = 186
     \<or> (188 \<le> c \<and> c \<le> 190) \<or> (192 \<le> c \<and> c \<le> 214) \<or> (216 \<le> c \<and> c \<le> 246)
     \<or> (248 \<le> c \<and> c \<le> 255) \<or> c = 304"

definition excerpt_lower_char :: "codepoint \<Rightarrow> pystr" where
  "excerpt_lower_char c =
     (if (65 \<le> c \<and> c \<le> 90) \<or> (192 \<le> c \<and> c \<le> 214) \<or> (216 \<le> c \<and> c \<le> 222) then [c + 32]
      else if c = 304 then [105, 775]
      else [c])"

definition excerpt_lower :: "pystr \<Rightarrow> pystr" where
  "excerpt_lower s = concat (map excerpt_lower_char s)"

subsection \<open>Move/cleanup normalization (move_photos.py, \<^verbatim>\<open>normalize_photo_numbers\<close>)\<close>

text \<open>
  The element of the set comprehension:
  \<^verbatim>\<open>'100-' + num.split('-')[-1].zfill(4)\<close>. The hyphen is code point 45, and
  \<^verbatim>\<open>[-1]\<close> is the last piece: \<open>py_split\<close> never returns the empty list, so the
  index cannot fail. The input is split as it is; the function does not strip it,
  lower-case it or replace an underscore first.
\<close>

definition normalize_photo_number :: "pystr \<Rightarrow> pystr" where
  "normalize_photo_number num = py ''100-'' @ zfill 4 (last (py_split 45 num))"

definition normalize_photo_numbers :: "pystr list \<Rightarrow> pystr set" where
  "normalize_photo_numbers photo_numbers =
     (if photo_numbers = [] then {} else normalize_photo_number ` set photo_numbers)"

subsection \<open>Example inputs\<close>

text \<open>The file \<^verbatim>\<open>s.jpg\<close> with \<open>n\<close> bytes on disk, for the concrete runs below.\<close>

definition img :: "string \<Rightarrow> nat \<Rightarrow> image" where
  "img s n = \<lparr>stem = py s, suffix = py ''.jpg'', st_size = Some n\<rparr>"

section \<open>Properties of the auto-tuner\<close>

lemma tune_loop_bounds:
  "QUALITY_MIN \<le> quality \<Longrightarrow> quality \<le> QUALITY_MAX \<Longrightarrow>
   MAX_DIM_MIN \<le> max_dim \<Longrightarrow> max_dim \<le> MAX_DIM_MAX \<Longrightarrow>
   tune_loop est target_bytes quality max_dim calls = (Inr (q, d, e), k) \<Longrightarrow>
   QUALITY_MIN \<le> q \<and> q \<le> QUALITY_MAX \<and> MAX_DIM_MIN \<le> d \<and> d \<le> MAX_DIM_MAX"
proof (induction est target_bytes quality max_dim calls rule: tune_loop.induct)
  case (1 est target_bytes quality max_dim calls)
  show ?case
  proof (cases "est quality max_dim")
    case (Inl err)
    with "1.prems"(5) show ?thesis by (subst (asm) tune_loop.simps) simp
  next
    case (Inr v)
    show ?thesis
    proof (cases "v \<le> target_bytes")
      case True
      with Inr have "tune_loop est target_bytes quality max_dim calls
                       = (Inr (quality, max_dim, v), Suc calls)"
        by (subst tune_loop.simps) simp
      with "1.prems" show ?thesis by simp
    next
      case over: False
      show ?thesis
      proof (cases "QUALITY_MIN \<le> quality - QUALITY_STEP")
        case True
        with Inr over "1.prems"(5)
        have "tune_loop est target_bytes (quality - QUALITY_STEP) max_dim (Suc calls)
                = (Inr (q, d, e), k)"
          by (subst (asm) tune_loop.simps) simp
        moreover have "quality - QUALITY_STEP \<le> QUALITY_MAX"
          using "1.prems"(2) by (simp add: config_defs)
        ultimately show ?thesis
          using "1.IH"(1) [OF Inr over True True] "1.prems"(3,4) by simp
      next
        case qfloor: False
        show ?thesis
        proof (cases "MAX_DIM_MIN \<le> max_dim - MAX_DIM_STEP")
          case True
          with Inr over qfloor "1.prems"(5)
          have "tune_loop est target_bytes quality (max_dim - MAX_DIM_STEP) (Suc calls)
                  = (Inr (q, d, e), k)"
            by (subst (asm) tune_loop.simps) simp
          moreover have "max_dim - MAX_DIM_STEP \<le> MAX_DIM_MAX"
            using "1.prems"(4) by (simp add: config_defs)
          ultimately show ?thesis
            using "1.IH"(2) [OF Inr over qfloor True] "1.prems"(1,2) True by simp
        next
          case False
          with Inr over qfloor have "tune_loop est target_bytes quality max_dim calls
                                       = (Inr (quality, max_dim, v), Suc calls)"
            by (subst tune_loop.simps) simp
          with "1.prems" show ?thesis by simp
        qed
      qed
    qed
  qed
qed

lemma tune_loop_returns:
  "\<forall>quality max_dim. \<exists>v. est quality max_dim = Inr v \<Longrightarrow>
   \<exists>r. fst (tune_loop est target_bytes quality max_dim calls) = Inr r"
proof (induction est target_bytes quality max_dim calls rule: tune_loop.induct)
  case (1 est target_bytes quality max_dim calls)
  from "1.prems" obtain v where v: "est quality max_dim = Inr v" by blast
  show ?case
  proof (cases "v \<le> target_bytes")
    case True
    with v show ?thesis by (subst tune_loop.simps) simp
  next
    case over: False
    show ?thesis
    proof (cases "QUALITY_MIN \<le> quality - QUALITY_STEP")
      case True
      with v over "1.IH"(1) [OF v over True "1.prems"] show ?thesis
        by (subst tune_loop.simps) simp
    next
      case qfloor: False
      show ?thesis
      proof (cases "MAX_DIM_MIN \<le> max_dim - MAX_DIM_STEP")
        case True
        with v over qfloor "1.IH"(2) [OF v over qfloor True "1.prems"] show ?thesis
          by (subst tune_loop.simps) simp
      next
        case False
        with v over qfloor show ?thesis by (subst tune_loop.simps) simp
      qed
    qed
  qed
qed

lemma tune_loop_calls:
  "QUALITY_MIN \<le> quality \<Longrightarrow> MAX_DIM_MIN \<le> max_dim \<Longrightarrow>
   int (snd (tune_loop est target_bytes quality max_dim calls))
     \<le> int calls + (quality - QUALITY_MIN) div QUALITY_STEP
        + (max_dim - MAX_DIM_MIN) div MAX_DIM_STEP + 1"
proof (induction est target_bytes quality max_dim calls rule: tune_loop.induct)
  case (1 est target_bytes quality max_dim calls)
  have q0: "0 \<le> (quality - QUALITY_MIN) div QUALITY_STEP"
    using "1.prems"(1) by (simp add: config_defs)
  have d0: "0 \<le> (max_dim - MAX_DIM_MIN) div MAX_DIM_STEP"
    using "1.prems"(2) by (simp add: config_defs)
  show ?case
  proof (cases "est quality max_dim")
    case (Inl err)
    then show ?thesis using q0 d0 by (subst tune_loop.simps) simp
  next
    case (Inr v)
    show ?thesis
    proof (cases "v \<le> target_bytes")
      case True
      with Inr show ?thesis using q0 d0 by (subst tune_loop.simps) simp
    next
      case over: False
      show ?thesis
      proof (cases "QUALITY_MIN \<le> quality - QUALITY_STEP")
        case True
        have step: "(quality - QUALITY_STEP - QUALITY_MIN) div QUALITY_STEP
                    = (quality - QUALITY_MIN) div QUALITY_STEP - 1"
          by (simp add: config_defs)
        from "1.IH"(1) [OF Inr over True True "1.prems"(2)] Inr over True step show ?thesis
          by (subst tune_loop.simps) simp
      next
        case qfloor: False
        show ?thesis
        proof (cases "MAX_DIM_MIN \<le> max_dim - MAX_DIM_STEP")
          case True
          have step: "(max_dim - MAX_DIM_STEP - MAX_DIM_MIN) div MAX_DIM_STEP
                      = (max_dim - MAX_DIM_MIN) div MAX_DIM_STEP - 1"
            by (simp add: config_defs)
          from "1.IH"(2) [OF Inr over qfloor True "1.prems"(1) True] Inr over qfloor True step
          show ?thesis
            by (subst tune_loop.simps) simp
        next
          case False
          with Inr over qfloor q0 d0 show ?thesis by (subst tune_loop.simps) simp
        qed
      qed
    qed
  qed
qed

lemma tune_loop_first:
  "est quality max_dim = Inr v \<Longrightarrow> v \<le> target_bytes \<Longrightarrow>
   tune_loop est target_bytes quality max_dim calls = (Inr (quality, max_dim, v), Suc calls)"
  by (subst tune_loop.simps) simp

section \<open>Properties of the size estimator\<close>

lemma stat_keys_returns:
  "\<forall>p \<in> set image_paths. st_size p \<noteq> None \<Longrightarrow> \<exists>ks. stat_keys image_paths = Inr ks"
  by (induction image_paths) auto

lemma sample_returns:
  "\<forall>p \<in> set image_paths. st_size p \<noteq> None \<Longrightarrow> \<exists>smp. sample image_paths sample_max = Inr smp"
  using stat_keys_returns [of image_paths]
  by (auto simp: sample_def sorted_by_size_def)

lemma estimate_returns:
  assumes "\<forall>p \<in> set image_paths. st_size p \<noteq> None"
  shows "\<exists>v. estimate_docx_size_bytes rnd enc image_paths quality max_dim overhead_bytes sample_max
              = Inr v"
proof -
  from sample_returns [OF assms] obtain smp where "sample image_paths sample_max = Inr smp"
    by blast
  then show ?thesis
    by (simp add: estimate_docx_size_bytes_def estimate_run_def Let_def)
qed

lemma compressed_sizes_Nil_iff:
  "compressed_sizes enc ps quality max_dim = [] \<longleftrightarrow> (\<forall>p \<in> set ps. enc p quality max_dim = None)"
  by (induction ps) (auto split: option.splits)

lemma est_empty [simp]:
  "estimate_docx_size_bytes rnd enc [] q d ob sm = Inr ob"
  by (simp add: estimate_docx_size_bytes_def estimate_run_def)

lemma est_fallback:
  "image_paths \<noteq> [] \<Longrightarrow> sample image_paths sample_max = Inr smp \<Longrightarrow>
   \<forall>p \<in> set smp. enc p quality max_dim = None \<Longrightarrow>
   estimate_docx_size_bytes rnd enc image_paths quality max_dim overhead_bytes sample_max
     = Inr (overhead_bytes + 10000000)"
  by (simp add: estimate_docx_size_bytes_def estimate_run_def compressed_sizes_Nil_iff)

lemma sample_one:
  "sample [\<lparr>stem = s, suffix = x, st_size = Some n\<rparr>] ESTIMATE_SAMPLE_MAX
     = Inr [\<lparr>stem = s, suffix = x, st_size = Some n\<rparr>]"
  by (simp add: sample_def sorted_by_size_def slice_to_def config_defs)

lemma sample_two:
  "sample [img ''a'' 10, img ''b'' 30] ESTIMATE_SAMPLE_MAX = Inr [img ''b'' 30, img ''a'' 10]"
  by (simp add: sample_def sorted_by_size_def slice_to_def img_def config_defs)

lemma est_all_fail:
  "estimate_docx_size_bytes rnd (\<lambda>p q d. None) [img ''a'' 10] quality max_dim
     DOCX_OVERHEAD_BYTES ESTIMATE_SAMPLE_MAX = Inr 11500000"
  using est_fallback [OF _ sample_one, of "py ''a''" "py ''.jpg''" 10 "\<lambda>p q d. None"]
  by (simp add: img_def DOCX_OVERHEAD_BYTES_def)

lemma est_two:
  "estimate_docx_size_bytes (\<lambda>x. x) (\<lambda>p q d. Some 200000) [img ''a'' 10, img ''b'' 30] 50 1400
     DOCX_OVERHEAD_BYTES ESTIMATE_SAMPLE_MAX = Inr 1900000"
  by (simp add: estimate_docx_size_bytes_def estimate_run_def sample_two
      extrapolate_def py_int_def DOCX_OVERHEAD_BYTES_def)

lemma py_int_ge: "of_int k \<le> x \<Longrightarrow> k \<le> py_int x"
  using ceiling_mono [of "of_int k" x] by (simp add: py_int_def le_floor_iff)

lemma extrapolate_ge:
  assumes "mono rnd" "rnd 0 = 0" "rnd (of_int overhead_bytes) = of_int overhead_bytes"
  shows "overhead_bytes \<le> extrapolate rnd overhead_bytes sizes n"
proof -
  have nn: "0 \<le> rnd x" if "0 \<le> x" for x
    using monoD [OF assms(1) that] assms(2) by simp
  have avg: "0 \<le> rnd (rnd (of_nat (sum_list sizes)) / rnd (of_nat (length sizes)))"
    by (intro nn divide_nonneg_nonneg) simp_all
  have "0 \<le> rnd (rnd (rnd (of_nat (sum_list sizes)) / rnd (of_nat (length sizes))) * rnd (of_nat n))"
    by (intro nn mult_nonneg_nonneg avg) simp
  then have "of_int overhead_bytes \<le> rnd (of_int overhead_bytes)
      + rnd (rnd (rnd (of_nat (sum_list sizes)) / rnd (of_nat (length sizes))) * rnd (of_nat n))"
    using assms(3) by simp
  from monoD [OF assms(1) this] assms(3) show ?thesis
    unfolding extrapolate_def Let_def by (intro py_int_ge) simp
qed

lemma estimate_ge:
  assumes "mono rnd" "rnd 0 = 0" "rnd (of_int overhead_bytes) = of_int overhead_bytes"
    and "estimate_docx_size_bytes rnd enc image_paths quality max_dim overhead_bytes sample_max
           = Inr v"
  shows "overhead_bytes \<le> v"
  using assms(4) extrapolate_ge [OF assms(1-3)]
  by (auto simp: estimate_docx_size_bytes_def estimate_run_def Let_def
      split: if_splits sum.splits)

section \<open>Bounds of the returned setting and of the estimate\<close>

text \<open>
  C1. Whatever the images, the target and the starting values, a setting returned by
  \<open>auto_tune_compression\<close> has its quality between \<open>QUALITY_MIN\<close> and
  \<open>QUALITY_MAX\<close> and its dimension between \<open>MAX_DIM_MIN\<close> and \<open>MAX_DIM_MAX\<close>; this
  includes the runs that end at the floors with the target not met. A setting is
  returned whenever \<^verbatim>\<open>stat\<close> answers for every file; otherwise the \<^verbatim>\<open>OSError\<close> of
  the estimator ends the call and nothing is returned.
\<close>

theorem auto_tune_compression_in_bounds:
  "(auto_tune_compression rnd enc image_paths target_bytes start_quality start_max_dim
      = Inr (q, d, e)
    \<longrightarrow> QUALITY_MIN \<le> q \<and> q \<le> QUALITY_MAX \<and> MAX_DIM_MIN \<le> d \<and> d \<le> MAX_DIM_MAX)
   \<and> ((\<forall>p \<in> set image_paths. st_size p \<noteq> None) \<longrightarrow>
        (\<exists>q d e. auto_tune_compression rnd enc image_paths target_bytes start_quality start_max_dim
                   = Inr (q, d, e)))"
proof -
  have bounds: "QUALITY_MIN \<le> q \<and> q \<le> QUALITY_MAX \<and> MAX_DIM_MIN \<le> d \<and> d \<le> MAX_DIM_MAX"
    if ret: "auto_tune_compression rnd enc image_paths target_bytes start_quality start_max_dim
               = Inr (q, d, e)"
  proof -
    obtain k where run:
      "auto_tune_run rnd enc image_paths target_bytes start_quality start_max_dim
         = (Inr (q, d, e), k)"
      using ret
      by (cases "auto_tune_run rnd enc image_paths target_bytes start_quality start_max_dim")
         (simp add: auto_tune_compression_def)
    show ?thesis
      by (rule tune_loop_bounds [OF _ _ _ _ run [unfolded auto_tune_run_def]])
         (simp_all add: config_defs)
  qed
  have returns: "\<exists>q d e. auto_tune_compression rnd enc image_paths target_bytes start_quality
                             start_max_dim = Inr (q, d, e)"
    if stat: "\<forall>p \<in> set image_paths. st_size p \<noteq> None"
  proof -
    have "\<forall>quality max_dim. \<exists>v. estimate_docx_size_bytes rnd enc image_paths quality max_dim
                   DOCX_OVERHEAD_BYTES ESTIMATE_SAMPLE_MAX = Inr v"
      using estimate_returns [OF stat] by blast
    from tune_loop_returns [OF this, of target_bytes]
    show ?thesis
      unfolding auto_tune_compression_def auto_tune_run_def by (metis prod.exhaust)
  qed
  from bounds returns show ?thesis by blast
qed

theorem auto_tune_compression_in_bounds_witness:
  "auto_tune_compression (\<lambda>x. x) (\<lambda>p q d. None) [img ''a'' 10] 5 50 1400 = Inr (30, 800, 11500000)
   \<and> QUALITY_MIN \<le> 30 \<and> 30 \<le> QUALITY_MAX \<and> MAX_DIM_MIN \<le> 800 \<and> 800 \<le> MAX_DIM_MAX
   \<and> st_size (img ''a'' 10) = Some 10"
proof -
  have run: "auto_tune_compression (\<lambda>x. x) (\<lambda>p q d. None) [img ''a'' 10] 5 50 1400
               = Inr (30, 800, 11500000)"
    by (simp add: auto_tune_compression_def auto_tune_run_def tune_loop.simps est_all_fail
        bound_defs)
  from auto_tune_compression_in_bounds [of "\<lambda>x. x" "\<lambda>p q d. None" "[img ''a'' 10]" 5 50 1400
      30 800 11500000] run
  show ?thesis by (simp add: img_def)
qed

text \<open>
  C4. On an empty image sequence the estimator returns exactly the overhead it was given
  (\<open>DOCX_OVERHEAD_BYTES\<close> by default) and hands no file to the codec. This holds for
  every quality and dimension, in particular for those within the configured bounds.
\<close>

theorem estimate_empty:
  "estimate_docx_size_bytes rnd enc [] quality max_dim overhead_bytes sample_max
     = Inr overhead_bytes
   \<and> encoder_calls rnd enc [] quality max_dim overhead_bytes sample_max = []"
  by (simp add: estimate_docx_size_bytes_def encoder_calls_def estimate_run_def)

text \<open>
  C5, as the code has it. When the image list is not empty, \<^verbatim>\<open>stat\<close> answers for
  every file, so that the sample \<open>smp\<close> is taken, and the codec raises on every file of
  the sample, the estimator returns the overhead plus the flat penalty of 10,000,000
  bytes and raises nothing: the exception of the codec is caught inside the loop.
\<close>

theorem estimate_total_failure:
  assumes "image_paths \<noteq> []"
    and "\<forall>p \<in> set image_paths. st_size p \<noteq> None"
    and "sample image_paths sample_max = Inr smp"
    and "\<forall>p \<in> set smp. enc p quality max_dim = None"
  shows "estimate_docx_size_bytes rnd enc image_paths quality max_dim overhead_bytes sample_max
           = Inr (overhead_bytes + 10000000)"
  using assms(1,3,4)
  by (simp add: estimate_docx_size_bytes_def estimate_run_def compressed_sizes_Nil_iff)

theorem estimate_total_failure_witness:
  "[img ''a'' 10, img ''b'' 30] \<noteq> []
   \<and> st_size (img ''a'' 10) = Some 10 \<and> st_size (img ''b'' 30) = Some 30
   \<and> sample [img ''a'' 10, img ''b'' 30] ESTIMATE_SAMPLE_MAX = Inr [img ''b'' 30, img ''a'' 10]
   \<and> estimate_docx_size_bytes (\<lambda>x. x) (\<lambda>p q d. None) [img ''a'' 10, img ''b'' 30] 50 1400
        DOCX_OVERHEAD_BYTES ESTIMATE_SAMPLE_MAX = Inr 11500000"
proof -
  have st: "\<forall>p \<in> set [img ''a'' 10, img ''b'' 30]. st_size p \<noteq> None"
    by (simp add: img_def)
  have r: "estimate_docx_size_bytes (\<lambda>x. x) (\<lambda>p q d. None) [img ''a'' 10, img ''b'' 30] 50 1400
        DOCX_OVERHEAD_BYTES ESTIMATE_SAMPLE_MAX = Inr (DOCX_OVERHEAD_BYTES + 10000000)"
    by (rule estimate_total_failure [OF _ st sample_two]) simp_all
  show ?thesis
    using r sample_two by (simp add: DOCX_OVERHEAD_BYTES_def img_def)
qed

text \<open>
  Without the answer of \<^verbatim>\<open>stat\<close> the claim fails. For a list of one file that is
  gone, with a codec that raises on every file, the list is not empty and no sampled
  file is encoded, and the estimator raises \<^verbatim>\<open>OSError\<close> from the sort of line 220
  where the fallback of 11,500,000 bytes was to be returned.
\<close>

theorem estimate_total_failure_counterexample:
  "[\<lparr>stem = py ''gone'', suffix = py ''.jpg'', st_size = None\<rparr>] \<noteq> []
   \<and> encoder_calls (\<lambda>x. x) (\<lambda>p q d. None)
        [\<lparr>stem = py ''gone'', suffix = py ''.jpg'', st_size = None\<rparr>] 50 1400
        DOCX_OVERHEAD_BYTES ESTIMATE_SAMPLE_MAX = []
   \<and> estimate_docx_size_bytes (\<lambda>x. x) (\<lambda>p q d. None)
        [\<lparr>stem = py ''gone'', suffix = py ''.jpg'', st_size = None\<rparr>] 50 1400
        DOCX_OVERHEAD_BYTES ESTIMATE_SAMPLE_MAX = Inl OSError
   \<and> estimate_docx_size_bytes (\<lambda>x. x) (\<lambda>p q d. None)
        [\<lparr>stem = py ''gone'', suffix = py ''.jpg'', st_size = None\<rparr>] 50 1400
        DOCX_OVERHEAD_BYTES ESTIMATE_SAMPLE_MAX \<noteq> Inr (DOCX_OVERHEAD_BYTES + 10000000)"
  by (simp add: estimate_docx_size_bytes_def encoder_calls_def estimate_run_def sample_def
      sorted_by_size_def)

text \<open>
  C10. On every path that returns (empty list, total failure of the sample,
  extrapolation from the mean) the estimate is at least the overhead it was given, hence
  not negative for an overhead that is not negative; and the estimator returns whenever
  \<^verbatim>\<open>stat\<close> answers for every file. The double arithmetic of the last path enters
  through its rounding only: it is monotone, and zero and the overhead are doubles.
\<close>

theorem estimate_ge_overhead:
  assumes "mono rnd" "rnd 0 = 0" "rnd (of_int overhead_bytes) = of_int overhead_bytes"
  shows "(estimate_docx_size_bytes rnd enc image_paths quality max_dim overhead_bytes sample_max
            = Inr v
          \<longrightarrow> overhead_bytes \<le> v \<and> (0 \<le> overhead_bytes \<longrightarrow> 0 \<le> v))
         \<and> ((\<forall>p \<in> set image_paths. st_size p \<noteq> None) \<longrightarrow>
              (\<exists>v. estimate_docx_size_bytes rnd enc image_paths quality max_dim overhead_bytes
                      sample_max = Inr v))"
  using estimate_ge [OF assms] estimate_returns by fastforce

theorem estimate_ge_overhead_witness:
  "mono (\<lambda>x::rat. x) \<and> (\<lambda>x::rat. x) 0 = 0
   \<and> (\<lambda>x::rat. x) (of_int DOCX_OVERHEAD_BYTES) = of_int DOCX_OVERHEAD_BYTES
   \<and> estimate_docx_size_bytes (\<lambda>x. x) (\<lambda>p q d. Some 200000) [img ''a'' 10, img ''b'' 30] 50 1400
        DOCX_OVERHEAD_BYTES ESTIMATE_SAMPLE_MAX = Inr 1900000
   \<and> 0 \<le> DOCX_OVERHEAD_BYTES
   \<and> DOCX_OVERHEAD_BYTES \<le> 1900000"
proof -
  have m: "mono (\<lambda>x::rat. x)" by (simp add: mono_def)
  from estimate_ge_overhead [of "\<lambda>x. x" DOCX_OVERHEAD_BYTES "\<lambda>p q d. Some 200000"
      "[img ''a'' 10, img ''b'' 30]" 50 1400 ESTIMATE_SAMPLE_MAX 1900000, OF m] est_two m
  show ?thesis by (simp add: config_defs)
qed

section \<open>Termination and first iteration of the auto-tuner\<close>

text \<open>
  C2, as the code has it. \<open>tune_loop\<close> is a total function: its termination proof is
  the decrease of the distance of \<open>quality\<close> and \<open>max_dim\<close> to their floors. The
  number of estimator calls is bounded by the formula taken at the clamped starting
  values, for every input; at the starting values themselves the bound holds whenever
  they are not below the floors.
\<close>

theorem estimator_calls_bound:
  "int (estimator_calls rnd enc image_paths target_bytes start_quality start_max_dim)
     \<le> (max QUALITY_MIN (min QUALITY_MAX start_quality) - QUALITY_MIN) div QUALITY_STEP
       + (max MAX_DIM_MIN (min MAX_DIM_MAX start_max_dim) - MAX_DIM_MIN) div MAX_DIM_STEP + 1
   \<and> (QUALITY_MIN \<le> start_quality \<and> MAX_DIM_MIN \<le> start_max_dim \<longrightarrow>
        int (estimator_calls rnd enc image_paths target_bytes start_quality start_max_dim)
          \<le> (start_quality - QUALITY_MIN) div QUALITY_STEP
            + (start_max_dim - MAX_DIM_MIN) div MAX_DIM_STEP + 1)"
proof -
  let ?q = "max QUALITY_MIN (min QUALITY_MAX start_quality)"
  let ?d = "max MAX_DIM_MIN (min MAX_DIM_MAX start_max_dim)"
  let ?n = "int (estimator_calls rnd enc image_paths target_bytes start_quality start_max_dim)"
  have clamped: "?n \<le> (?q - QUALITY_MIN) div QUALITY_STEP + (?d - MAX_DIM_MIN) div MAX_DIM_STEP + 1"
    unfolding estimator_calls_def auto_tune_run_def
    using tune_loop_calls [of ?q ?d _ target_bytes 0] by simp
  have "?n \<le> (start_quality - QUALITY_MIN) div QUALITY_STEP
            + (start_max_dim - MAX_DIM_MIN) div MAX_DIM_STEP + 1"
    if "QUALITY_MIN \<le> start_quality" "MAX_DIM_MIN \<le> start_max_dim"
  proof -
    have "(?q - QUALITY_MIN) div QUALITY_STEP \<le> (start_quality - QUALITY_MIN) div QUALITY_STEP"
      using that(1) by (intro zdiv_mono1) (simp_all add: config_defs)
    moreover have "(?d - MAX_DIM_MIN) div MAX_DIM_STEP \<le> (start_max_dim - MAX_DIM_MIN) div MAX_DIM_STEP"
      using that(2) by (intro zdiv_mono1) (simp_all add: config_defs)
    ultimately show ?thesis using clamped by linarith
  qed
  with clamped show ?thesis by blast
qed

theorem estimator_calls_bound_witness:
  "QUALITY_MIN \<le> 50 \<and> MAX_DIM_MIN \<le> 1400
   \<and> estimator_calls (\<lambda>x. x) (\<lambda>p q d. None) [img ''a'' 10] 5 50 1400 = 8
   \<and> int (estimator_calls (\<lambda>x. x) (\<lambda>p q d. None) [img ''a'' 10] 5 50 1400)
        \<le> (50 - QUALITY_MIN) div QUALITY_STEP + (1400 - MAX_DIM_MIN) div MAX_DIM_STEP + 1"
proof -
  have h: "QUALITY_MIN \<le> 50 \<and> MAX_DIM_MIN \<le> 1400" by (simp add: config_defs)
  have e: "estimator_calls (\<lambda>x. x) (\<lambda>p q d. None) [img ''a'' 10] 5 50 1400 = 8"
    by (simp add: estimator_calls_def auto_tune_run_def tune_loop.simps est_all_fail bound_defs)
  from estimator_calls_bound [of "\<lambda>x. x" "\<lambda>p q d. None" "[img ''a'' 10]" 5 50 1400] h e
  show ?thesis by blast
qed

text \<open>
  The formula at the unclamped starting values fails for a start below the floor: from
  quality 25 and dimension 2400, with an unreachable target, the tuner calls the
  estimator 9 times, and the formula gives 8.
\<close>

theorem estimator_calls_bound_counterexample:
  "estimator_calls (\<lambda>x. x) (\<lambda>p q d. None) [img ''a'' 10] 5 25 2400 = 9
   \<and> (25 - QUALITY_MIN) div QUALITY_STEP + (2400 - MAX_DIM_MIN) div MAX_DIM_STEP + 1 = 8
   \<and> \<not> int (estimator_calls (\<lambda>x. x) (\<lambda>p q d. None) [img ''a'' 10] 5 25 2400)
        \<le> (25 - QUALITY_MIN) div QUALITY_STEP + (2400 - MAX_DIM_MIN) div MAX_DIM_STEP + 1"
  by (simp add: estimator_calls_def auto_tune_run_def tune_loop.simps est_all_fail bound_defs)

text \<open>
  C3, as the code has it. When the starting values lie within the configured bounds and
  the estimate at them already meets the target, the tuner returns them unchanged with
  that estimate, after one call of the estimator.
\<close>

theorem tune_returns_start:
  assumes "QUALITY_MIN \<le> start_quality" "start_quality \<le> QUALITY_MAX"
    and "MAX_DIM_MIN \<le> start_max_dim" "start_max_dim \<le> MAX_DIM_MAX"
    and "estimate_docx_size_bytes rnd enc image_paths start_quality start_max_dim
           DOCX_OVERHEAD_BYTES ESTIMATE_SAMPLE_MAX = Inr v"
    and "v \<le> target_bytes"
  shows "auto_tune_compression rnd enc image_paths target_bytes start_quality start_max_dim
           = Inr (start_quality, start_max_dim, v)
         \<and> estimator_calls rnd enc image_paths target_bytes start_quality start_max_dim = 1"
proof -
  have "max QUALITY_MIN (min QUALITY_MAX start_quality) = start_quality"
       "max MAX_DIM_MIN (min MAX_DIM_MAX start_max_dim) = start_max_dim"
    using assms(1-4) by simp_all
  with assms(5,6) show ?thesis
    by (simp add: auto_tune_compression_def estimator_calls_def auto_tune_run_def tune_loop_first)
qed

theorem tune_returns_start_witness:
  "QUALITY_MIN \<le> 50 \<and> 50 \<le> QUALITY_MAX \<and> MAX_DIM_MIN \<le> 1400 \<and> 1400 \<le> MAX_DIM_MAX
   \<and> estimate_docx_size_bytes (\<lambda>x. x) (\<lambda>p q d. Some 200000) [img ''a'' 10, img ''b'' 30] 50 1400
        DOCX_OVERHEAD_BYTES ESTIMATE_SAMPLE_MAX = Inr 1900000
   \<and> 1900000 \<le> TARGET_DOCX_SIZE_BYTES
   \<and> auto_tune_compression (\<lambda>x. x) (\<lambda>p q d. Some 200000) [img ''a'' 10, img ''b'' 30]
        TARGET_DOCX_SIZE_BYTES 50 1400 = Inr (50, 1400, 1900000)
   \<and> estimator_calls (\<lambda>x. x) (\<lambda>p q d. Some 200000) [img ''a'' 10, img ''b'' 30]
        TARGET_DOCX_SIZE_BYTES 50 1400 = 1"
proof -
  have h: "QUALITY_MIN \<le> 50" "50 \<le> QUALITY_MAX" "MAX_DIM_MIN \<le> 1400" "1400 \<le> MAX_DIM_MAX"
    by (simp_all add: config_defs)
  have t: "(1900000::int) \<le> TARGET_DOCX_SIZE_BYTES" by (simp add: config_defs)
  from tune_returns_start [of 50 1400 "\<lambda>x. x" "\<lambda>p q d. Some 200000" "[img ''a'' 10, img ''b'' 30]"
      1900000 TARGET_DOCX_SIZE_BYTES, OF h est_two t] h t est_two
  show ?thesis by simp
qed

text \<open>
  A start outside the bounds is clamped before the first estimate: from quality 95 the
  tuner returns quality 90, although the estimate at 95 meets the target.
\<close>

theorem tune_returns_start_counterexample:
  "estimate_docx_size_bytes (\<lambda>x. x) (\<lambda>p q d. None) [] 95 1400
       DOCX_OVERHEAD_BYTES ESTIMATE_SAMPLE_MAX = Inr 1500000
   \<and> 1500000 \<le> TARGET_DOCX_SIZE_BYTES
   \<and> auto_tune_compression (\<lambda>x. x) (\<lambda>p q d. None) [] TARGET_DOCX_SIZE_BYTES 95 1400
       = Inr (90, 1400, 1500000)
   \<and> auto_tune_compression (\<lambda>x. x) (\<lambda>p q d. None) [] TARGET_DOCX_SIZE_BYTES 95 1400
       \<noteq> Inr (95, 1400, 1500000)"
  by (simp add: auto_tune_compression_def auto_tune_run_def tune_loop.simps config_defs)

section \<open>Natural sort and selection\<close>

lemma key_DSCN3801:
  "natural_sort_key_string (py ''DSCN3801'') = Inr [Str (py ''DSCN''), Num 3801, Str []]"
  by (simp add: natural_sort_key_string_def py_def py_strip_def py_isspace_def
      re_split_digits.simps re_digit_def py_str_isdigit_def py_isdigit_char_def int_of_str_def)

text \<open>
  C6, as the code has it. The key of \<^verbatim>\<open>DSCN3801\<close> has a third element, the empty
  string that \<^verbatim>\<open>re.split\<close> returns after a match at the end of the input; and
  sorting \<^verbatim>\<open>img10\<close>, \<^verbatim>\<open>img2\<close> by the key gives \<^verbatim>\<open>img2\<close>, \<^verbatim>\<open>img10\<close>.
\<close>

theorem natural_sort_key_examples:
  "natural_sort_key_string (py ''DSCN3801'') = Inr [Str (py ''DSCN''), Num 3801, Str (py [])]
   \<and> py_sorted natural_sort_key_string [py ''img10'', py ''img2'']
       = Inr [py ''img2'', py ''img10'']"
  by (simp add: py_sorted_def natural_sort_key_string_def py_def py_strip_def py_isspace_def
      re_split_digits.simps re_digit_def py_str_isdigit_def py_isdigit_char_def int_of_str_def)

text \<open>The key of \<^verbatim>\<open>DSCN3801\<close> is not the two-element list.\<close>

theorem natural_sort_key_counterexample:
  "natural_sort_key_string (py ''DSCN3801'') \<noteq> Inr [Str (py ''DSCN''), Num 3801]"
  by (simp add: key_DSCN3801)

text \<open>
  C9. With files of stems \<^verbatim>\<open>1\<close>, \<^verbatim>\<open>2\<close>, \<^verbatim>\<open>3\<close> in the folder, the required list
  \<^verbatim>\<open>3\<close>, \<^verbatim>\<open>4\<close>, \<^verbatim>\<open>1\<close> and the order of the list kept, the selection is the file
  of stem 3 followed by the file of stem 1, and the missing stems are \<^verbatim>\<open>4\<close> alone:
  the loop went on after the stem it did not find, and no error is returned.
\<close>

theorem selection_example:
  "main_orchestrator_selection
     [\<lparr>stem = py ''1'', suffix = x1, st_size = n1\<rparr>,
      \<lparr>stem = py ''2'', suffix = x2, st_size = n2\<rparr>,
      \<lparr>stem = py ''3'', suffix = x3, st_size = n3\<rparr>]
     [py ''3'', py ''4'', py ''1''] False
   = Inr ([\<lparr>stem = py ''3'', suffix = x3, st_size = n3\<rparr>,
           \<lparr>stem = py ''1'', suffix = x1, st_size = n1\<rparr>],
          [py ''4''])"
  by (simp add: main_orchestrator_selection_def image_by_stem_def py_def py_strip_def
      py_isspace_def)

section \<open>Normalization\<close>

lemma py_split_not_Nil [simp]: "py_split sep s \<noteq> []"
  by (induction s) (auto split: list.splits)

lemma py_split_append:
  "py_split sep (a @ sep # b) = py_split sep a @ py_split sep b"
proof (induction a)
  case Nil
  then show ?case by simp
next
  case (Cons c a)
  obtain t ts where ts: "py_split sep a = t # ts"
    by (cases "py_split sep a") simp_all
  with Cons show ?case by simp
qed

lemma py_split_no_sep: "sep \<notin> set s \<Longrightarrow> py_split sep s = [s]"
  by (induction s) auto

lemma last_py_split_no_sep: "sep \<notin> set (last (py_split sep s))"
proof (induction s)
  case Nil
  then show ?case by simp
next
  case (Cons c s)
  obtain t ts where ts: "py_split sep s = t # ts"
    by (cases "py_split sep s") simp_all
  with Cons show ?case by (cases ts) auto
qed

lemma zfill_long: "width \<le> length s \<Longrightarrow> zfill width s = s"
  by (simp add: zfill_def)

lemma length_zfill: "width \<le> length (zfill width s)"
  by (auto simp: zfill_def split: list.splits)

lemma zfill_no_hyphen: "45 \<notin> set s \<Longrightarrow> 45 \<notin> set (zfill width s)"
  by (auto simp: zfill_def split: list.splits)

lemma replicate_3: "replicate 3 x = [x, x, x]"
  by (simp add: numeral_3_eq_3)

lemma normalize_photo_number_idem:
  "normalize_photo_number (normalize_photo_number num) = normalize_photo_number num"
proof -
  define z where "z = zfill 4 (last (py_split 45 num))"
  have nh: "45 \<notin> set z"
    unfolding z_def by (intro zfill_no_hyphen last_py_split_no_sep)
  have "py ''100-'' @ z = [49, 48, 48] @ 45 # z"
    by (simp add: py_def)
  then have "last (py_split 45 (py ''100-'' @ z)) = last (py_split 45 [49, 48, 48] @ py_split 45 z)"
    by (simp only: py_split_append)
  also have "\<dots> = z"
    using nh by (simp add: py_split_no_sep)
  finally have "zfill 4 (last (py_split 45 (py ''100-'' @ z))) = z"
    using length_zfill [of 4 "last (py_split 45 num)"] by (simp add: zfill_long z_def)
  then show ?thesis
    by (simp add: normalize_photo_number_def z_def)
qed

lemma normalize_photo_numbers_idem:
  assumes eq: "set ys = normalize_photo_numbers xs"
  shows "normalize_photo_numbers ys = normalize_photo_numbers xs"
proof (cases "xs = []")
  case True
  with eq show ?thesis by (simp add: normalize_photo_numbers_def)
next
  case False
  with eq have ys: "set ys = normalize_photo_number ` set xs" "ys \<noteq> []"
    by (auto simp: normalize_photo_numbers_def)
  have "normalize_photo_number ` set ys = normalize_photo_number ` set xs"
    unfolding ys(1) by (simp add: image_image normalize_photo_number_idem)
  with ys(2) False show ?thesis by (simp add: normalize_photo_numbers_def)
qed

lemma filter_insert_hyphen:
  "\<not> isalnum 45 \<Longrightarrow> filter isalnum (insert_hyphen s) = filter isalnum s"
proof -
  assume h: "\<not> isalnum 45"
  have parts: "filter isalnum (take 3 s) @ filter isalnum (drop 3 s) = filter isalnum s"
    by (metis filter_append append_take_drop_id)
  with h show ?thesis by (simp add: insert_hyphen_def py_def)
qed

lemma filter_all: "list_all P s \<Longrightarrow> filter P s = s"
  by (induction s) auto

lemma cleaned_nr_idem:
  assumes db: "database_facts isalnum lower" and x: "304 \<notin> set x"
  shows "cleaned_nr isalnum lower (cleaned_nr isalnum lower x) = cleaned_nr isalnum lower x"
proof -
  define y where "y = lower (filter isalnum x)"
  from db have hyphen: "\<not> isalnum 45"
    and alnum: "\<And>s. 304 \<notin> set s \<Longrightarrow> list_all isalnum s \<Longrightarrow> list_all isalnum (lower s)"
    and idem: "\<And>s. lower (lower s) = lower s"
    by (simp_all add: database_facts_def)
  have "list_all isalnum (filter isalnum x)"
    by (simp add: list_all_iff)
  with x have "list_all isalnum y"
    unfolding y_def by (intro alnum) simp_all
  then have "filter isalnum (insert_hyphen y) = y"
    using hyphen by (simp add: filter_insert_hyphen filter_all)
  moreover have "lower y = y"
    unfolding y_def by (rule idem)
  ultimately show ?thesis
    by (simp add: cleaned_nr_def y_def)
qed

lemma excerpt_lower_append: "excerpt_lower (a @ b) = excerpt_lower a @ excerpt_lower b"
  by (simp add: excerpt_lower_def)

lemma excerpt_lower_char_alnum:
  "c \<noteq> 304 \<Longrightarrow> excerpt_isalnum c \<Longrightarrow> list_all excerpt_isalnum (excerpt_lower_char c)"
  unfolding excerpt_lower_char_def excerpt_isalnum_def by auto

lemma excerpt_lower_char_idem:
  "excerpt_lower (excerpt_lower_char c) = excerpt_lower_char c"
  unfolding excerpt_lower_def excerpt_lower_char_def by auto

lemma excerpt_lower_alnum:
  "304 \<notin> set s \<Longrightarrow> list_all excerpt_isalnum s \<Longrightarrow> list_all excerpt_isalnum (excerpt_lower s)"
proof (induction s)
  case Nil
  then show ?case by (simp add: excerpt_lower_def)
next
  case (Cons c s)
  then have "list_all excerpt_isalnum (excerpt_lower_char c)"
    by (intro excerpt_lower_char_alnum) auto
  moreover from Cons have "list_all excerpt_isalnum (excerpt_lower s)" by simp
  ultimately show ?case
    using excerpt_lower_append [of "[c]" s] by (simp add: excerpt_lower_def)
qed

lemma excerpt_lower_idem: "excerpt_lower (excerpt_lower s) = excerpt_lower s"
proof (induction s)
  case Nil
  then show ?case by (simp add: excerpt_lower_def)
next
  case (Cons c s)
  have "excerpt_lower (c # s) = excerpt_lower_char c @ excerpt_lower s"
    by (simp add: excerpt_lower_def)
  then show ?case
    using Cons by (simp add: excerpt_lower_append excerpt_lower_char_idem)
qed

lemma excerpt_database_facts: "database_facts excerpt_isalnum excerpt_lower"
  unfolding database_facts_def
  using excerpt_lower_alnum excerpt_lower_idem by (simp add: excerpt_isalnum_def)

text \<open>
  Whatever the rest of the database, five of its rows decide the report-list
  normalization of the one-character string U+0130: U+0130 and \<^verbatim>\<open>i\<close> are
  alphanumeric, U+0307 is not, and the lower case of U+0130 is \<^verbatim>\<open>i\<close> followed by
  U+0307 while \<^verbatim>\<open>i\<close> is its own lower case. The first pass returns the two code
  points, the second pass removes U+0307.
\<close>

lemma dotted_I_not_idempotent:
  assumes "isalnum 304" "isalnum 105" "\<not> isalnum 775"
    and "lower [304] = [105, 775]" "lower [105] = [105]"
  shows "cleaned_nr isalnum lower [304] = [105, 775]"
    and "cleaned_nr isalnum lower (cleaned_nr isalnum lower [304]) = [105]"
  using assms by (simp_all add: cleaned_nr_def insert_hyphen_def)

lemma normalize_100_0006:
  "normalize_photo_numbers [py ''100_0006'', py ''100-7'']
     = {py ''100-100_0006'', py ''100-0007''}"
  by (simp add: normalize_photo_numbers_def normalize_photo_number_def zfill_def py_def
      replicate_3)

text \<open>
  C7, as the code has it. The move/cleanup normalization is idempotent for every string,
  element by element and as a map from lists to sets. The report-list normalization is
  idempotent for every string that does not contain U+0130, for every Unicode database
  with the three facts above.
\<close>

theorem normalization_idempotent:
  "normalize_photo_number (normalize_photo_number x) = normalize_photo_number x
   \<and> (set ys = normalize_photo_numbers xs \<longrightarrow>
        normalize_photo_numbers ys = normalize_photo_numbers xs)
   \<and> (database_facts isalnum lower \<and> 304 \<notin> set x \<longrightarrow>
        cleaned_nr isalnum lower (cleaned_nr isalnum lower x) = cleaned_nr isalnum lower x)"
  by (simp add: normalize_photo_number_idem normalize_photo_numbers_idem cleaned_nr_idem)

theorem normalization_idempotent_witness:
  "database_facts excerpt_isalnum excerpt_lower
   \<and> 304 \<notin> set (py ''DSCN-3801'')
   \<and> cleaned_nr excerpt_isalnum excerpt_lower (py ''DSCN-3801'') = py ''dsc-n3801''
   \<and> cleaned_nr excerpt_isalnum excerpt_lower
        (cleaned_nr excerpt_isalnum excerpt_lower (py ''DSCN-3801''))
       = cleaned_nr excerpt_isalnum excerpt_lower (py ''DSCN-3801'')
   \<and> normalize_photo_number (normalize_photo_number (py ''DSCN-3801''))
       = normalize_photo_number (py ''DSCN-3801'')
   \<and> set [py ''100-100_0006'', py ''100-0007'']
       = normalize_photo_numbers [py ''100_0006'', py ''100-7'']
   \<and> normalize_photo_numbers [py ''100-100_0006'', py ''100-0007'']
       = normalize_photo_numbers [py ''100_0006'', py ''100-7'']"
proof -
  have no_dotted_I: "304 \<notin> set (py ''DSCN-3801'')"
    by (simp add: py_def)
  have val: "cleaned_nr excerpt_isalnum excerpt_lower (py ''DSCN-3801'') = py ''dsc-n3801''"
    by (simp add: cleaned_nr_def insert_hyphen_def excerpt_lower_def excerpt_lower_char_def
        excerpt_isalnum_def py_def)
  have sets: "set [py ''100-100_0006'', py ''100-0007'']
       = normalize_photo_numbers [py ''100_0006'', py ''100-7'']"
    by (simp add: normalize_100_0006)
  from normalization_idempotent [of "py ''DSCN-3801''" "[py ''100-100_0006'', py ''100-0007'']"
      "[py ''100_0006'', py ''100-7'']" excerpt_isalnum excerpt_lower]
    excerpt_database_facts no_dotted_I val sets
  show ?thesis by blast
qed

text \<open>
  The report-list normalization is not idempotent on the one-character string U+0130:
  its lower case is \<^verbatim>\<open>i\<close> followed by U+0307, and the second pass removes U+0307,
  which is not alphanumeric.
\<close>

theorem normalization_idempotent_counterexample:
  "cleaned_nr excerpt_isalnum excerpt_lower [304] = [105, 775]
   \<and> cleaned_nr excerpt_isalnum excerpt_lower (cleaned_nr excerpt_isalnum excerpt_lower [304])
       = [105]
   \<and> cleaned_nr excerpt_isalnum excerpt_lower (cleaned_nr excerpt_isalnum excerpt_lower [304])
       \<noteq> cleaned_nr excerpt_isalnum excerpt_lower [304]"
proof -
  have rows: "excerpt_isalnum 304" "excerpt_isalnum 105" "\<not> excerpt_isalnum 775"
    "excerpt_lower [304] = [105, 775]" "excerpt_lower [105] = [105]"
    by (simp_all add: excerpt_isalnum_def excerpt_lower_def excerpt_lower_char_def)
  from dotted_I_not_idempotent [OF rows] show ?thesis by simp
qed

text \<open>
  C8. On \<^verbatim>\<open>100_0006\<close>, \<^verbatim>\<open>100-7\<close> the function returns \<^verbatim>\<open>100-100_0006\<close> and
  \<^verbatim>\<open>100-0007\<close>: the underscore is not turned into a hyphen before the split, so the
  whole of \<^verbatim>\<open>100_0006\<close> is taken for the number. The set of the docstring,
  \<^verbatim>\<open>100-0006\<close> and \<^verbatim>\<open>100-0007\<close>, is not returned.
\<close>

theorem normalize_photo_numbers_underscore:
  "normalize_photo_numbers [py ''100_0006'', py ''100-7'']
     = {py ''100-100_0006'', py ''100-0007''}
   \<and> normalize_photo_numbers [py ''100_0006'', py ''100-7'']
     \<noteq> {py ''100-0006'', py ''100-0007''}"
  by (simp add: normalize_photo_numbers_def normalize_photo_number_def zfill_def py_def
      replicate_3 doubleton_eq_iff)

end
